theory Spec2Isabelle
  imports Main
begin

section \<open>The shared record and the storage commands\<close>

text \<open>
  The circuit breaker keeps one row (key \<open>SYSTEM_STATE\<close>) in a DynamoDB table. The
  functions under \<open>functions/\<close> read and write four attributes of that row. An
  attribute may be missing from the row, so every attribute is optional; numbers
  are integers, the timestamp is the ISO string the caller computed.
\<close>

type_synonym timestamp = string

record item =
  errorCount :: "int option"
  currentLevel :: "int option"
  recoveryPoints :: "int option"
  lastUpdated :: "timestamp option"

text \<open>The table holds the row or does not hold it.\<close>

type_synonym table = "item option"

definition empty_item :: item where
  "empty_item = \<lparr>errorCount = None, currentLevel = None, recoveryPoints = None,
     lastUpdated = None\<rparr>"

text \<open>
  \<open>docClient.send(new GetCommand(...))\<close>: returns the row (or nothing) and leaves the
  table as it is.
\<close>

definition send_GetCommand :: "table \<Rightarrow> item option \<times> table" where
  "send_GetCommand tb = (tb, tb)"

text \<open>
  \<open>docClient.send(new UpdateCommand(...))\<close> with a \<open>SET\<close> expression and
  \<open>ReturnValues: 'ALL_NEW'\<close>: the assignments are applied to the row, which is created
  when it does not exist, and the new attributes are returned.
\<close>

definition send_UpdateCommand :: "(item \<Rightarrow> item) \<Rightarrow> table \<Rightarrow> item \<times> table" where
  "send_UpdateCommand upd tb =
     (let new = upd (case tb of None \<Rightarrow> empty_item | Some it \<Rightarrow> it)
      in (new, Some new))"

text \<open>DynamoDB's \<open>if_not_exists(attr, d)\<close>.\<close>

definition if_not_exists :: "int option \<Rightarrow> int \<Rightarrow> int" where
  "if_not_exists v d = (case v of None \<Rightarrow> d | Some n \<Rightarrow> n)"

text \<open>
  JavaScript's \<open>v || d\<close> on a number that may be undefined: undefined and 0 are falsy.
\<close>

definition js_or :: "int option \<Rightarrow> int \<Rightarrow> int" where
  "js_or v d = (case v of None \<Rightarrow> d | Some n \<Rightarrow> if n = 0 then d else n)"

text \<open>JavaScript's \<open>v >= n\<close> on a number that may be undefined: undefined compares false.\<close>

definition js_ge :: "int option \<Rightarrow> int \<Rightarrow> bool" where
  "js_ge v n = (case v of None \<Rightarrow> False | Some m \<Rightarrow> n \<le> m)"

section \<open>functions/mutator.js\<close>

definition DEGRADE_TO_L2 :: int where "DEGRADE_TO_L2 = 5"
definition DEGRADE_TO_L3 :: int where "DEGRADE_TO_L3 = 10"
definition RECOVERY_POINTS :: int where "RECOVERY_POINTS = 10"

text \<open>
  The object a mutator operation returns. \<open>handleFailure\<close> returns no
  \<open>recoveryPoints\<close>, and only \<open>handleReset\<close> returns a \<open>message\<close>.
\<close>

record response =
  res_action :: string
  res_errorCount :: "int option"
  res_currentLevel :: int
  res_recoveryPoints :: "int option"
  res_levelChanged :: bool
  res_lastUpdated :: "timestamp option"
  res_message :: "string option"

record event =
  action :: "string option"
  hadErrorFlag :: "bool option"

datatype error = Error string

text \<open>
  \<open>handleFailure\<close>: one update increments \<open>errorCount\<close> and clears \<open>recoveryPoints\<close>;
  the level is decided from the returned attributes; a second update writes the
  level when it changed. \<open>now\<close> is the value of \<open>new Date().toISOString()\<close>.
\<close>

definition handleFailure :: "timestamp \<Rightarrow> table \<Rightarrow> response \<times> table" where
  "handleFailure now tb =
     (let (attrs, tb1) = send_UpdateCommand
            (\<lambda>it. it\<lparr>errorCount := Some (if_not_exists (errorCount it) 0 + 1),
                      recoveryPoints := Some 0, lastUpdated := Some now\<rparr>) tb;
          newErrorCount = errorCount attrs;
          curLevel = js_or (currentLevel attrs) 1;
          newLevel = (if js_ge newErrorCount DEGRADE_TO_L3 \<and> curLevel < 3 then 3
                      else if js_ge newErrorCount DEGRADE_TO_L2 \<and> curLevel < 2 then 2
                      else curLevel)
      in if newLevel \<noteq> curLevel then
           (let (levelAttrs, tb2) = send_UpdateCommand
                  (\<lambda>it. it\<lparr>currentLevel := Some newLevel, lastUpdated := Some now\<rparr>) tb1
            in (\<lparr>res_action = ''FAILURE'', res_errorCount = newErrorCount,
                  res_currentLevel = newLevel, res_recoveryPoints = None,
                  res_levelChanged = True, res_lastUpdated = lastUpdated levelAttrs,
                  res_message = None\<rparr>, tb2))
         else
           (\<lparr>res_action = ''FAILURE'', res_errorCount = newErrorCount,
              res_currentLevel = curLevel, res_recoveryPoints = None,
              res_levelChanged = False, res_lastUpdated = Some now,
              res_message = None\<rparr>, tb1))"

text \<open>
  \<open>handleSuccess\<close>: reads the row; creates the default row when there is none;
  otherwise computes the new counters and level and writes all of them.
\<close>

definition handleSuccess :: "timestamp \<Rightarrow> event \<Rightarrow> table \<Rightarrow> response \<times> table" where
  "handleSuccess now ev tb =
     (let flag = (hadErrorFlag ev = Some True);
          (getResult_Item, tb0) = send_GetCommand tb
      in case getResult_Item of
           None \<Rightarrow>
             (let (attrs, tb1) = send_UpdateCommand
                    (\<lambda>it. it\<lparr>errorCount := Some 0, currentLevel := Some 1,
                              recoveryPoints := Some 0, lastUpdated := Some now\<rparr>) tb0
              in (\<lparr>res_action = ''SUCCESS'', res_errorCount = Some 0,
                    res_currentLevel = 1, res_recoveryPoints = Some 0,
                    res_levelChanged = False, res_lastUpdated = Some now,
                    res_message = None\<rparr>, tb1))
         | Some gi \<Rightarrow>
             (let currentErrorCount = js_or (errorCount gi) 0;
                  curLevel = js_or (currentLevel gi) 1;
                  currentRecoveryPoints = js_or (recoveryPoints gi) 0;
                  (newErrorCount, newLevel, newRecoveryPoints) =
                    (if curLevel = 1 then
                       (max 0 (currentErrorCount - 1), curLevel, 0)
                     else if flag then
                       (currentErrorCount + 1,
                        (if DEGRADE_TO_L3 \<le> currentErrorCount + 1 \<and> curLevel < 3
                         then 3 else curLevel),
                        0)
                     else if RECOVERY_POINTS \<le> currentRecoveryPoints + 1 then
                       (0,
                        (if curLevel = 3 then 2 else if curLevel = 2 then 1 else curLevel),
                        0)
                     else
                       (currentErrorCount, curLevel, currentRecoveryPoints + 1));
                  (attrs, tb1) = send_UpdateCommand
                    (\<lambda>it. it\<lparr>errorCount := Some newErrorCount,
                              currentLevel := Some newLevel,
                              recoveryPoints := Some newRecoveryPoints,
                              lastUpdated := Some now\<rparr>) tb0
              in (\<lparr>res_action = ''SUCCESS'', res_errorCount = Some newErrorCount,
                    res_currentLevel = newLevel,
                    res_recoveryPoints = Some newRecoveryPoints,
                    res_levelChanged = (newLevel \<noteq> curLevel),
                    res_lastUpdated = lastUpdated attrs,
                    res_message = None\<rparr>, tb1)))"

text \<open>\<open>handleReset\<close>: writes the default counters and level, whatever the row held.\<close>

definition handleReset :: "timestamp \<Rightarrow> table \<Rightarrow> response \<times> table" where
  "handleReset now tb =
     (let (attrs, tb1) = send_UpdateCommand
            (\<lambda>it. it\<lparr>errorCount := Some 0, currentLevel := Some 1,
                      recoveryPoints := Some 0, lastUpdated := Some now\<rparr>) tb
      in (\<lparr>res_action = ''RESET'', res_errorCount = Some 0, res_currentLevel = 1,
            res_recoveryPoints = Some 0, res_levelChanged = True,
            res_lastUpdated = Some now,
            res_message = Some ''System reset to Full Capacity''\<rparr>, tb1))"

text \<open>
  \<open>exports.handler\<close> of the mutator: dispatches on \<open>event.action\<close>; any other action
  throws, and the \<open>catch\<close> block rethrows the error. The storage commands are taken
  to succeed; a failing transport is outside this model.
\<close>

definition handler :: "timestamp \<Rightarrow> event \<Rightarrow> table \<Rightarrow> (error + response) \<times> table" where
  "handler now ev tb =
     (if action ev = Some ''FAILURE'' then
        (let (r, tb') = handleFailure now tb in (Inr r, tb'))
      else if action ev = Some ''SUCCESS'' then
        (let (r, tb') = handleSuccess now ev tb in (Inr r, tb'))
      else if action ev = Some ''RESET'' then
        (let (r, tb') = handleReset now tb in (Inr r, tb'))
      else
        (Inl (Error (''Unknown action: '' @
           (case action ev of None \<Rightarrow> ''undefined'' | Some a \<Rightarrow> a))), tb))"

section \<open>functions/get-state.js\<close>

text \<open>The object the reader returns: it has these three keys and no other.\<close>

record system_state =
  gs_currentLevel :: "int option"
  gs_errorCount :: "int option"
  gs_lastUpdated :: "timestamp option"

definition get_state :: "table \<Rightarrow> system_state \<times> table" where
  "get_state tb =
     (let (result_Item, tb') = send_GetCommand tb
      in case result_Item of
           None \<Rightarrow>
             (\<lparr>gs_currentLevel = Some 1, gs_errorCount = Some 0,
                gs_lastUpdated = None\<rparr>, tb')
         | Some it \<Rightarrow>
             (\<lparr>gs_currentLevel = currentLevel it, gs_errorCount = errorCount it,
                gs_lastUpdated = lastUpdated it\<rparr>, tb'))"

section \<open>Sequences of invocations\<close>

text \<open>
  The mutator invoked once per event, each invocation with its own clock reading.
  An invocation that throws leaves the table as it was.
\<close>

fun run :: "(timestamp \<times> event) list \<Rightarrow> table \<Rightarrow> table" where
  "run [] tb = tb"
| "run ((now, ev) # evs) tb = run evs (snd (handler now ev tb))"

definition FAILURE :: event where
  "FAILURE = \<lparr>action = Some ''FAILURE'', hadErrorFlag = None\<rparr>"

definition SUCCESS :: "bool \<Rightarrow> event" where
  "SUCCESS flag = \<lparr>action = Some ''SUCCESS'', hadErrorFlag = Some flag\<rparr>"

definition RESET :: event where
  "RESET = \<lparr>action = Some ''RESET'', hadErrorFlag = None\<rparr>"

text \<open>
  The tier, error count and recovery count the mutator works with: a missing row is
  the default record, and a missing attribute reads as its default
  (\<open>currentLevel || 1\<close>, \<open>errorCount || 0\<close>, \<open>recoveryPoints || 0\<close>).
\<close>

definition tier :: "table \<Rightarrow> int" where
  "tier tb = (case tb of None \<Rightarrow> 1 | Some it \<Rightarrow> js_or (currentLevel it) 1)"

definition errors :: "table \<Rightarrow> int" where
  "errors tb = (case tb of None \<Rightarrow> 0 | Some it \<Rightarrow> js_or (errorCount it) 0)"

definition points :: "table \<Rightarrow> int" where
  "points tb = (case tb of None \<Rightarrow> 0 | Some it \<Rightarrow> js_or (recoveryPoints it) 0)"

text \<open>The same event at each of the given clock readings, in order.\<close>

definition invocations :: "event \<Rightarrow> timestamp list \<Rightarrow> (timestamp \<times> event) list" where
  "invocations ev ts = map (\<lambda>now. (now, ev)) ts"

text \<open>
  What holds of every table the mutator can produce from the missing row: the tier
  is 1, 2 or 3, and at tier 1 the error count is below the first threshold.
\<close>

definition inv :: "table \<Rightarrow> bool" where
  "inv tb = ((tier tb = 1 \<and> errors tb < DEGRADE_TO_L2) \<or> tier tb = 2 \<or> tier tb = 3)"

section \<open>One invocation, in terms of tier, error count and recovery count\<close>

lemmas thresholds = DEGRADE_TO_L2_def DEGRADE_TO_L3_def RECOVERY_POINTS_def

lemmas storage_defs = send_GetCommand_def send_UpdateCommand_def empty_item_def
  if_not_exists_def

lemmas js_defs = js_or_def js_ge_def

lemma handleFailure_table:
  "snd (handleFailure now tb) =
     (let it = (case tb of None \<Rightarrow> empty_item | Some it \<Rightarrow> it);
          e = if_not_exists (errorCount it) 0 + 1;
          l = js_or (currentLevel it) 1;
          l' = (if DEGRADE_TO_L3 \<le> e \<and> l < 3 then 3
                else if DEGRADE_TO_L2 \<le> e \<and> l < 2 then 2 else l)
      in Some \<lparr>errorCount = Some e,
               currentLevel = (if l' \<noteq> l then Some l' else currentLevel it),
               recoveryPoints = Some 0, lastUpdated = Some now\<rparr>)"
  by (simp add: handleFailure_def send_UpdateCommand_def js_ge_def Let_def
      split: option.splits)

lemma handleFailure_tier:
  "tier (snd (handleFailure now tb)) =
     (if DEGRADE_TO_L3 \<le> errors tb + 1 \<and> tier tb < 3 then 3
      else if DEGRADE_TO_L2 \<le> errors tb + 1 \<and> tier tb < 2 then 2 else tier tb)"
  by (auto simp: handleFailure_table tier_def errors_def Let_def storage_defs js_defs
      thresholds split: option.splits)

lemma handleFailure_errors: "errors (snd (handleFailure now tb)) = errors tb + 1"
  by (auto simp: handleFailure_table errors_def Let_def storage_defs js_defs
      split: option.splits)

lemma handleFailure_points: "points (snd (handleFailure now tb)) = 0"
  by (simp add: handleFailure_table points_def Let_def js_defs)

lemma handleSuccess_absent:
  "snd (handleSuccess now ev None) =
     Some \<lparr>errorCount = Some 0, currentLevel = Some 1, recoveryPoints = Some 0,
            lastUpdated = Some now\<rparr>"
  by (simp add: handleSuccess_def storage_defs Let_def)

lemma handleSuccess_level1:
  assumes "tier tb = 1"
  shows "tier (snd (handleSuccess now ev tb)) = 1"
    and "errors (snd (handleSuccess now ev tb)) = max 0 (errors tb - 1)"
    and "points (snd (handleSuccess now ev tb)) = 0"
  using assms
  by (auto simp: handleSuccess_def tier_def errors_def points_def storage_defs js_or_def
      Let_def split: option.splits if_splits)

lemma handleSuccess_protected:
  assumes "tier tb \<noteq> 1" and "hadErrorFlag ev = Some True"
  shows "tier (snd (handleSuccess now ev tb)) =
           (if DEGRADE_TO_L3 \<le> errors tb + 1 \<and> tier tb < 3 then 3 else tier tb)"
    and "errors (snd (handleSuccess now ev tb)) = errors tb + 1"
    and "points (snd (handleSuccess now ev tb)) = 0"
  using assms
  by (auto simp: handleSuccess_def tier_def errors_def points_def storage_defs js_or_def
      Let_def thresholds split: option.splits if_splits)

lemma handleSuccess_genuine:
  assumes "tier tb \<noteq> 1" and "hadErrorFlag ev \<noteq> Some True"
  shows "tier (snd (handleSuccess now ev tb)) =
           (if RECOVERY_POINTS \<le> points tb + 1
            then (if tier tb = 3 then 2 else if tier tb = 2 then 1 else tier tb)
            else tier tb)"
    and "errors (snd (handleSuccess now ev tb)) =
           (if RECOVERY_POINTS \<le> points tb + 1 then 0 else errors tb)"
    and "points (snd (handleSuccess now ev tb)) =
           (if RECOVERY_POINTS \<le> points tb + 1 then 0 else points tb + 1)"
  using assms
  by (auto simp: handleSuccess_def tier_def errors_def points_def storage_defs js_or_def
      Let_def thresholds split: option.splits if_splits)

lemma handleReset_table:
  "snd (handleReset now tb) =
     Some \<lparr>errorCount = Some 0, currentLevel = Some 1, recoveryPoints = Some 0,
            lastUpdated = Some now\<rparr>"
  by (simp add: handleReset_def storage_defs Let_def split: option.splits)

lemma tier_present: "tier tb = 2 \<or> tier tb = 3 \<Longrightarrow> \<exists>it. tb = Some it"
  by (cases tb) (auto simp: tier_def)

section \<open>The invariant of the reachable tables\<close>

lemma inv_init: "inv None"
  by (simp add: inv_def tier_def errors_def thresholds)

lemma inv_handleFailure: "inv tb \<Longrightarrow> inv (snd (handleFailure now tb))"
  unfolding inv_def handleFailure_tier handleFailure_errors
  by (auto simp: thresholds)

lemma inv_handleSuccess: "inv tb \<Longrightarrow> inv (snd (handleSuccess now ev tb))"
proof (cases "tier tb = 1")
  case True
  assume "inv tb"
  with True show ?thesis
    by (auto simp: inv_def handleSuccess_level1 thresholds)
next
  case False
  assume "inv tb"
  with False show ?thesis
    by (cases "hadErrorFlag ev = Some True")
       (auto simp: inv_def handleSuccess_protected handleSuccess_genuine thresholds)
qed

lemma inv_handleReset: "inv (snd (handleReset now tb))"
  by (simp add: handleReset_table inv_def tier_def errors_def js_or_def thresholds)

lemma inv_handler: "inv tb \<Longrightarrow> inv (snd (handler now ev tb))"
  by (auto simp: handler_def split_beta inv_handleFailure inv_handleSuccess
      inv_handleReset)

lemma inv_run: "inv tb \<Longrightarrow> inv (run evs tb)"
  by (induction evs arbitrary: tb) (auto simp: inv_handler)

lemma single_step_failure:
  assumes "inv tb"
  shows "tier tb \<le> tier (snd (handleFailure now tb)) \<and>
         tier (snd (handleFailure now tb)) \<le> tier tb + 1"
  using assms unfolding inv_def handleFailure_tier by (auto simp: thresholds)

lemma single_step_success:
  assumes "inv tb"
  shows "tier tb - 1 \<le> tier (snd (handleSuccess now ev tb)) \<and>
         (tier (snd (handleSuccess now ev tb)) \<le> tier tb \<or>
          hadErrorFlag ev = Some True \<and> tier tb = 2 \<and>
          tier (snd (handleSuccess now ev tb)) = 3)"
proof (cases "tier tb = 1")
  case True
  then show ?thesis by (simp add: handleSuccess_level1)
next
  case False
  with assms show ?thesis
    by (cases "hadErrorFlag ev = Some True")
       (auto simp: inv_def handleSuccess_protected handleSuccess_genuine thresholds)
qed

section \<open>Single-step transitions\<close>

text \<open>
  C1. Take any table reached from the missing row (the default record) by any
  sequence of mutator invocations. One more \<open>handleFailure\<close> leaves the tier where
  it is or raises it by one; one more \<open>handleSuccess\<close> lowers the tier by at most
  one, and raises it only in the protected success that degrades tier 2 to tier 3.
  No single call skips a tier.
\<close>

theorem single_step_transitions:
  "tier (run evs None) \<le> tier (snd (handleFailure now (run evs None))) \<and>
   tier (snd (handleFailure now (run evs None))) \<le> tier (run evs None) + 1 \<and>
   tier (run evs None) - 1 \<le> tier (snd (handleSuccess now ev (run evs None))) \<and>
   (tier (snd (handleSuccess now ev (run evs None))) \<le> tier (run evs None) \<or>
    hadErrorFlag ev = Some True \<and> tier (run evs None) = 2 \<and>
    tier (snd (handleSuccess now ev (run evs None))) = 3)"
  using single_step_failure [OF inv_run [OF inv_init]]
        single_step_success [OF inv_run [OF inv_init]]
  by blast

section \<open>Genuine successes\<close>

text \<open>
  C2. At tier 2 or 3, a success whose \<open>hadErrorFlag\<close> is not true adds one to the
  recovery count. When the incremented count reaches \<open>RECOVERY_POINTS\<close> the row is
  written with the tier one step lower and both counters 0, and the response reports
  the level as changed; otherwise the row keeps its tier and error count and holds
  the incremented recovery count.
\<close>

theorem genuine_success_recovery:
  assumes "tier tb = 2 \<or> tier tb = 3" and "hadErrorFlag ev \<noteq> Some True"
  shows "snd (handleSuccess now ev tb) =
           Some (if RECOVERY_POINTS \<le> points tb + 1
                 then \<lparr>errorCount = Some 0, currentLevel = Some (tier tb - 1),
                        recoveryPoints = Some 0, lastUpdated = Some now\<rparr>
                 else \<lparr>errorCount = Some (errors tb), currentLevel = Some (tier tb),
                        recoveryPoints = Some (points tb + 1),
                        lastUpdated = Some now\<rparr>) \<and>
         res_levelChanged (fst (handleSuccess now ev tb)) =
           (RECOVERY_POINTS \<le> points tb + 1)"
proof -
  from assms(1) obtain it where tb: "tb = Some it"
    using tier_present by blast
  from assms show ?thesis unfolding tb
    by (auto simp: handleSuccess_def tier_def errors_def points_def storage_defs Let_def)
qed

theorem genuine_success_recovery_witness:
  "snd (handleSuccess ''t'' (SUCCESS False)
      (Some \<lparr>errorCount = Some 7, currentLevel = Some 3, recoveryPoints = Some 9,
              lastUpdated = None\<rparr>)) =
     Some \<lparr>errorCount = Some 0, currentLevel = Some 2, recoveryPoints = Some 0,
            lastUpdated = Some ''t''\<rparr> \<and>
   snd (handleSuccess ''t'' (SUCCESS False)
      (Some \<lparr>errorCount = Some 7, currentLevel = Some 2, recoveryPoints = Some 3,
              lastUpdated = None\<rparr>)) =
     Some \<lparr>errorCount = Some 7, currentLevel = Some 2, recoveryPoints = Some 4,
            lastUpdated = Some ''t''\<rparr>"
  using genuine_success_recovery [of "Some \<lparr>errorCount = Some 7, currentLevel = Some 3,
          recoveryPoints = Some 9, lastUpdated = None\<rparr>" "SUCCESS False" "''t''"]
        genuine_success_recovery [of "Some \<lparr>errorCount = Some 7, currentLevel = Some 2,
          recoveryPoints = Some 3, lastUpdated = None\<rparr>" "SUCCESS False" "''t''"]
  by (simp add: tier_def errors_def points_def js_or_def SUCCESS_def thresholds)

section \<open>Sequences of invocations, step by step\<close>

lemma run_append: "run (xs @ ys) tb = run ys (run xs tb)"
  by (induction xs arbitrary: tb) auto

lemma handler_FAILURE: "snd (handler now FAILURE tb) = snd (handleFailure now tb)"
  by (simp add: handler_def FAILURE_def split_beta)

lemma handler_SUCCESS: "snd (handler now (SUCCESS f) tb) = snd (handleSuccess now (SUCCESS f) tb)"
  by (simp add: handler_def SUCCESS_def split_beta)

lemma handler_RESET: "snd (handler now RESET tb) = snd (handleReset now tb)"
  by (simp add: handler_def RESET_def split_beta)

lemma run_invocations_Cons:
  "run (invocations ev (t # ts)) tb = run (invocations ev ts) (snd (handler t ev tb))"
  by (simp add: invocations_def)

lemma run_invocations_Nil: "run (invocations ev []) tb = tb"
  by (simp add: invocations_def)

lemma run_invocations_snoc:
  "run (invocations ev (ts @ [t])) tb = snd (handler t ev (run (invocations ev ts) tb))"
  by (simp add: invocations_def run_append)

lemma handleFailure_clears_points:
  "\<exists>it. snd (handleFailure now tb) = Some it \<and> recoveryPoints it = Some 0"
  by (simp add: handleFailure_table Let_def)

lemma protected_clears_points:
  assumes "hadErrorFlag ev = Some True"
  shows "\<exists>it. snd (handleSuccess now ev tb) = Some it \<and> recoveryPoints it = Some 0"
  using assms
  by (cases tb) (auto simp: handleSuccess_def storage_defs Let_def split_beta)

lemma genuine_after_clear:
  assumes "recoveryPoints it = Some 0" and "hadErrorFlag ev \<noteq> Some True"
  shows "tier (snd (handleSuccess now ev (Some it))) = tier (Some it)"
    and "\<not> res_levelChanged (fst (handleSuccess now ev (Some it)))"
  using assms
  by (auto simp: handleSuccess_def storage_defs Let_def tier_def js_or_def thresholds
      split: option.splits if_splits)

section \<open>An interrupted recovery streak\<close>

text \<open>
  C3. Start at tier 2 or 3 and apply nine genuine successes, then one interruption:
  a failure or a protected success. The row then holds \<open>recoveryPoints = 0\<close>, and
  the genuine success that follows (the tenth of the streak) leaves the tier where
  the interruption left it and reports no level change: it does not promote.
\<close>

theorem recovery_reset_on_interruption:
  assumes "tier tb = 2 \<or> tier tb = 3" and "length ts = 9"
    and "intr = FAILURE \<or> intr = SUCCESS True"
  shows "(\<exists>it. run (invocations (SUCCESS False) ts @ [(t, intr)]) tb = Some it \<and>
              recoveryPoints it = Some 0) \<and>
         tier (run (invocations (SUCCESS False) ts @ [(t, intr), (t', SUCCESS False)]) tb) =
           tier (run (invocations (SUCCESS False) ts @ [(t, intr)]) tb) \<and>
         \<not> res_levelChanged (fst (handleSuccess t' (SUCCESS False)
              (run (invocations (SUCCESS False) ts @ [(t, intr)]) tb)))"
proof -
  define tb9 where "tb9 = run (invocations (SUCCESS False) ts) tb"
  define tb10 where "tb10 = snd (handler t intr tb9)"
  have r10: "run (invocations (SUCCESS False) ts @ [(t, intr)]) tb = tb10"
    by (simp add: run_append tb9_def tb10_def)
  have r11: "run (invocations (SUCCESS False) ts @ [(t, intr), (t', SUCCESS False)]) tb =
      snd (handleSuccess t' (SUCCESS False) tb10)"
    by (simp add: run_append tb9_def tb10_def handler_SUCCESS)
  have "\<exists>it. tb10 = Some it \<and> recoveryPoints it = Some 0"
  proof (cases "intr = FAILURE")
    case True
    then show ?thesis
      unfolding tb10_def by (simp add: handler_FAILURE handleFailure_clears_points)
  next
    case False
    with assms(3) have "intr = SUCCESS True" by simp
    moreover have "hadErrorFlag (SUCCESS True) = Some True"
      by (simp add: SUCCESS_def)
    ultimately show ?thesis
      unfolding tb10_def
      by (simp only: handler_SUCCESS protected_clears_points)
  qed
  then obtain it where it: "tb10 = Some it" "recoveryPoints it = Some 0"
    by blast
  have g: "hadErrorFlag (SUCCESS False) \<noteq> Some True"
    by (simp add: SUCCESS_def)
  show ?thesis
    unfolding r10 r11 using it genuine_after_clear [OF it(2) g] by simp
qed


theorem recovery_reset_on_interruption_witness:
  "run (invocations (SUCCESS False)
          [''a'', ''b'', ''c'', ''d'', ''e'', ''f'', ''g'', ''h'', ''i''] @ [(''j'', FAILURE)])
     (Some \<lparr>errorCount = Some 5, currentLevel = Some 2, recoveryPoints = Some 0,
             lastUpdated = None\<rparr>) =
   Some \<lparr>errorCount = Some 6, currentLevel = Some 2, recoveryPoints = Some 0,
          lastUpdated = Some ''j''\<rparr> \<and>
   tier (run (invocations (SUCCESS False)
          [''a'', ''b'', ''c'', ''d'', ''e'', ''f'', ''g'', ''h'', ''i''] @
          [(''j'', FAILURE), (''k'', SUCCESS False)])
     (Some \<lparr>errorCount = Some 5, currentLevel = Some 2, recoveryPoints = Some 0,
             lastUpdated = None\<rparr>)) = 2"
proof -
  let ?tb = "Some \<lparr>errorCount = Some 5, currentLevel = Some 2, recoveryPoints = Some 0,
             lastUpdated = None\<rparr>"
  let ?ts = "[''a'', ''b'', ''c'', ''d'', ''e'', ''f'', ''g'', ''h'', ''i'']"
  have h1: "tier ?tb = 2 \<or> tier ?tb = 3" by (simp add: tier_def js_or_def)
  have h2: "length ?ts = 9" by simp
  have h3: "FAILURE = FAILURE \<or> FAILURE = SUCCESS True" by simp
  have ten: "run (invocations (SUCCESS False) ?ts @ [(''j'', FAILURE)]) ?tb =
    Some \<lparr>errorCount = Some 6, currentLevel = Some 2, recoveryPoints = Some 0,
          lastUpdated = Some ''j''\<rparr>"
    by code_simp
  from recovery_reset_on_interruption [OF h1 h2 h3, of "''j''" "''k''"] ten
  show ?thesis by (simp add: tier_def js_or_def)
qed

section \<open>Protected successes\<close>

lemma protected_success_step:
  assumes "tier tb = 2 \<or> tier tb = 3" and "hadErrorFlag ev = Some True"
  shows "snd (handleSuccess now ev tb) =
           Some \<lparr>errorCount = Some (errors tb + 1),
                  currentLevel = Some (if DEGRADE_TO_L3 \<le> errors tb + 1 \<and> tier tb < 3
                                       then 3 else tier tb),
                  recoveryPoints = Some 0, lastUpdated = Some now\<rparr>"
proof -
  from assms(1) obtain it where tb: "tb = Some it"
    using tier_present by blast
  from assms show ?thesis unfolding tb
    by (auto simp: handleSuccess_def tier_def errors_def storage_defs Let_def)
qed

lemma protected_run_nonempty:
  assumes "tier tb = 2 \<or> tier tb = 3" and "ts \<noteq> []"
  shows "run (invocations (SUCCESS True) ts) tb =
           Some \<lparr>errorCount = Some (errors tb + int (length ts)),
                  currentLevel = Some (if DEGRADE_TO_L3 \<le> errors tb + int (length ts) \<and> tier tb < 3
                                       then 3 else tier tb),
                  recoveryPoints = Some 0, lastUpdated = Some (last ts)\<rparr>"
  using assms(2,1)
proof (induction ts arbitrary: tb rule: list_nonempty_induct)
  case (single t)
  have "hadErrorFlag (SUCCESS True) = Some True" by (simp add: SUCCESS_def)
  from protected_success_step [OF single this]
  show ?case
    by (simp add: run_invocations_Cons run_invocations_Nil handler_SUCCESS)
next
  case (cons t ts)
  have f: "hadErrorFlag (SUCCESS True) = Some True" by (simp add: SUCCESS_def)
  let ?tb1 = "snd (handleSuccess t (SUCCESS True) tb)"
  note step = protected_success_step [OF cons.prems f, of t]
  have t1: "tier ?tb1 = (if DEGRADE_TO_L3 \<le> errors tb + 1 \<and> tier tb < 3 then 3 else tier tb)"
    and e1: "errors ?tb1 = errors tb + 1"
    using cons.prems by (auto simp: step tier_def errors_def js_or_def thresholds)
  from t1 cons.prems have "tier ?tb1 = 2 \<or> tier ?tb1 = 3" by auto
  from cons.IH [OF this] cons.hyps cons.prems show ?case
    by (auto simp: run_invocations_Cons handler_SUCCESS t1 e1 thresholds)
qed

text \<open>
  C4. At tier 2 or 3, a success whose \<open>hadErrorFlag\<close> is true adds one to the error
  count and writes \<open>recoveryPoints = 0\<close>; the tier becomes 3 when the incremented
  error count is at least \<open>DEGRADE_TO_L3\<close> and the tier was below 3, and stays
  otherwise. From tier 2 with error count 5, ten protected successes end at tier 3
  with error count 15, and after each of the ten the row holds
  \<open>recoveryPoints = 0\<close>; the tier is 3 from the fifth on.
\<close>

theorem protected_success_degrades:
  "(tier tb = 2 \<or> tier tb = 3 \<longrightarrow> hadErrorFlag ev = Some True \<longrightarrow>
      snd (handleSuccess now ev tb) =
        Some \<lparr>errorCount = Some (errors tb + 1),
               currentLevel = Some (if DEGRADE_TO_L3 \<le> errors tb + 1 \<and> tier tb < 3
                                    then 3 else tier tb),
               recoveryPoints = Some 0, lastUpdated = Some now\<rparr>) \<and>
   (length ts = 10 \<longrightarrow>
      run (invocations (SUCCESS True) ts)
        (Some \<lparr>errorCount = Some 5, currentLevel = Some 2, recoveryPoints = rp,
                lastUpdated = lu\<rparr>) =
        Some \<lparr>errorCount = Some 15, currentLevel = Some 3, recoveryPoints = Some 0,
               lastUpdated = Some (last ts)\<rparr> \<and>
      (\<forall>k. 0 < k \<and> k \<le> 10 \<longrightarrow>
         run (invocations (SUCCESS True) (take k ts))
           (Some \<lparr>errorCount = Some 5, currentLevel = Some 2, recoveryPoints = rp,
                   lastUpdated = lu\<rparr>) =
           Some \<lparr>errorCount = Some (5 + int k),
                  currentLevel = Some (if k < 5 then 2 else 3),
                  recoveryPoints = Some 0, lastUpdated = Some (ts ! (k - 1))\<rparr>))"
proof (intro conjI impI allI)
  assume "tier tb = 2 \<or> tier tb = 3" and "hadErrorFlag ev = Some True"
  then show "snd (handleSuccess now ev tb) =
        Some \<lparr>errorCount = Some (errors tb + 1),
               currentLevel = Some (if DEGRADE_TO_L3 \<le> errors tb + 1 \<and> tier tb < 3
                                    then 3 else tier tb),
               recoveryPoints = Some 0, lastUpdated = Some now\<rparr>"
    by (rule protected_success_step)
next
  let ?tb = "Some \<lparr>errorCount = Some 5, currentLevel = Some 2, recoveryPoints = rp,
                lastUpdated = lu\<rparr>"
  have t: "tier ?tb = 2 \<or> tier ?tb = 3" and tv: "tier ?tb = 2" and e: "errors ?tb = 5"
    by (simp_all add: tier_def errors_def js_or_def)
  {
    assume len: "length ts = 10"
    then have "ts \<noteq> []" by auto
    from protected_run_nonempty [OF t this] len
    show "run (invocations (SUCCESS True) ts) ?tb =
        Some \<lparr>errorCount = Some 15, currentLevel = Some 3, recoveryPoints = Some 0,
               lastUpdated = Some (last ts)\<rparr>"
      by (simp add: tv e thresholds)
  next
    fix k :: nat
    assume len: "length ts = 10" and k: "0 < k \<and> k \<le> 10"
    then have ne: "take k ts \<noteq> []" and lk: "length (take k ts) = k" by auto
    from k len have "last (take k ts) = ts ! (k - 1)"
      using last_conv_nth [OF ne] by (auto simp: min_def)
    with protected_run_nonempty [OF t ne] lk
    show "run (invocations (SUCCESS True) (take k ts)) ?tb =
           Some \<lparr>errorCount = Some (5 + int k),
                  currentLevel = Some (if k < 5 then 2 else 3),
                  recoveryPoints = Some 0, lastUpdated = Some (ts ! (k - 1))\<rparr>"
      by (auto simp: tv e thresholds)
  }
qed

theorem protected_success_degrades_witness:
  "snd (handleSuccess ''t'' (SUCCESS True)
      (Some \<lparr>errorCount = Some 9, currentLevel = Some 2, recoveryPoints = Some 4,
              lastUpdated = None\<rparr>)) =
     Some \<lparr>errorCount = Some 10, currentLevel = Some 3, recoveryPoints = Some 0,
            lastUpdated = Some ''t''\<rparr> \<and>
   run (invocations (SUCCESS True)
          [''a'', ''b'', ''c'', ''d'', ''e'', ''f'', ''g'', ''h'', ''i'', ''j''])
     (Some \<lparr>errorCount = Some 5, currentLevel = Some 2, recoveryPoints = Some 0,
             lastUpdated = None\<rparr>) =
     Some \<lparr>errorCount = Some 15, currentLevel = Some 3, recoveryPoints = Some 0,
            lastUpdated = Some ''j''\<rparr> \<and>
   run (invocations (SUCCESS True) [''a'', ''b'', ''c'', ''d''])
     (Some \<lparr>errorCount = Some 5, currentLevel = Some 2, recoveryPoints = Some 0,
             lastUpdated = None\<rparr>) =
     Some \<lparr>errorCount = Some 9, currentLevel = Some 2, recoveryPoints = Some 0,
            lastUpdated = Some ''d''\<rparr>"
proof -
  note T = protected_success_degrades [of
      "Some \<lparr>errorCount = Some 9, currentLevel = Some 2, recoveryPoints = Some 4,
              lastUpdated = None\<rparr>" "SUCCESS True" "''t''"
      "[''a'', ''b'', ''c'', ''d'', ''e'', ''f'', ''g'', ''h'', ''i'', ''j'']" "Some 0" None]
  from T have A: "snd (handleSuccess ''t'' (SUCCESS True)
      (Some \<lparr>errorCount = Some 9, currentLevel = Some 2, recoveryPoints = Some 4,
              lastUpdated = None\<rparr>)) =
     Some \<lparr>errorCount = Some 10, currentLevel = Some 3, recoveryPoints = Some 0,
            lastUpdated = Some ''t''\<rparr>"
    by (simp add: tier_def errors_def js_or_def SUCCESS_def thresholds)
  from T have B: "run (invocations (SUCCESS True)
          [''a'', ''b'', ''c'', ''d'', ''e'', ''f'', ''g'', ''h'', ''i'', ''j''])
     (Some \<lparr>errorCount = Some 5, currentLevel = Some 2, recoveryPoints = Some 0,
             lastUpdated = None\<rparr>) =
     Some \<lparr>errorCount = Some 15, currentLevel = Some 3, recoveryPoints = Some 0,
            lastUpdated = Some ''j''\<rparr>"
    by simp
  from T have "\<forall>k. 0 < k \<and> k \<le> 10 \<longrightarrow>
         run (invocations (SUCCESS True)
           (take k [''a'', ''b'', ''c'', ''d'', ''e'', ''f'', ''g'', ''h'', ''i'', ''j'']))
           (Some \<lparr>errorCount = Some 5, currentLevel = Some 2, recoveryPoints = Some 0,
                   lastUpdated = None\<rparr>) =
           Some \<lparr>errorCount = Some (5 + int k),
                  currentLevel = Some (if k < 5 then 2 else 3),
                  recoveryPoints = Some 0,
                  lastUpdated = Some ([''a'', ''b'', ''c'', ''d'', ''e'', ''f'', ''g'', ''h'', ''i'', ''j''] ! (k - 1))\<rparr>"
    by simp
  from this [rule_format, of 4] have C: "run (invocations (SUCCESS True) [''a'', ''b'', ''c'', ''d''])
     (Some \<lparr>errorCount = Some 5, currentLevel = Some 2, recoveryPoints = Some 0,
             lastUpdated = None\<rparr>) =
     Some \<lparr>errorCount = Some 9, currentLevel = Some 2, recoveryPoints = Some 0,
            lastUpdated = Some ''d''\<rparr>"
    by simp
  from A B C show ?thesis by blast
qed

section \<open>Failures\<close>

lemma failures_run:
  assumes "tier tb = (if 10 \<le> errors tb then 3 else if 5 \<le> errors tb then 2 else 1)"
  shows "errors (run (invocations FAILURE ts) tb) = errors tb + int (length ts) \<and>
         tier (run (invocations FAILURE ts) tb) =
           (if 10 \<le> errors tb + int (length ts) then 3
            else if 5 \<le> errors tb + int (length ts) then 2 else 1)"
  using assms
proof (induction ts arbitrary: tb)
  case Nil
  then show ?case by (simp add: run_invocations_Nil)
next
  case (Cons t ts)
  let ?tb1 = "snd (handleFailure t tb)"
  have "tier ?tb1 = (if 10 \<le> errors ?tb1 then 3 else if 5 \<le> errors ?tb1 then 2 else 1)"
    using Cons.prems by (auto simp: handleFailure_tier handleFailure_errors thresholds)
  from Cons.IH [OF this] show ?case
    by (simp add: run_invocations_Cons handler_FAILURE handleFailure_errors add.assoc)
qed

lemma failures_from_absent:
  "errors (run (invocations FAILURE ts) None) = int (length ts) \<and>
   tier (run (invocations FAILURE ts) None) =
     (if 10 \<le> length ts then 3 else if 5 \<le> length ts then 2 else 1)"
proof -
  have "tier None = (if 10 \<le> errors None then 3 else if 5 \<le> errors None then 2 else 1)"
    by (simp add: tier_def errors_def)
  from failures_run [OF this, of ts] show ?thesis
    by (simp add: errors_def)
qed

lemma five_failures:
  assumes "length ts = 5"
  shows "run (invocations FAILURE ts) None =
           Some \<lparr>errorCount = Some 5, currentLevel = Some 2, recoveryPoints = Some 0,
                  lastUpdated = Some (last ts)\<rparr>"
    and "run (invocations FAILURE ts)
           (Some \<lparr>errorCount = Some 0, currentLevel = Some 1, recoveryPoints = Some 0,
                   lastUpdated = lu\<rparr>) =
           Some \<lparr>errorCount = Some 5, currentLevel = Some 2, recoveryPoints = Some 0,
                  lastUpdated = Some (last ts)\<rparr>"
proof -
  from assms obtain a b c d e where ts: "ts = [a, b, c, d, e]"
    by (auto simp: eval_nat_numeral length_Suc_conv)
  show "run (invocations FAILURE ts) None =
           Some \<lparr>errorCount = Some 5, currentLevel = Some 2, recoveryPoints = Some 0,
                  lastUpdated = Some (last ts)\<rparr>"
    unfolding ts
    by (simp add: run_invocations_Cons run_invocations_Nil handler_FAILURE
        handleFailure_table Let_def storage_defs js_defs thresholds)
  show "run (invocations FAILURE ts)
           (Some \<lparr>errorCount = Some 0, currentLevel = Some 1, recoveryPoints = Some 0,
                   lastUpdated = lu\<rparr>) =
           Some \<lparr>errorCount = Some 5, currentLevel = Some 2, recoveryPoints = Some 0,
                  lastUpdated = Some (last ts)\<rparr>"
    unfolding ts
    by (simp add: run_invocations_Cons run_invocations_Nil handler_FAILURE
        handleFailure_table Let_def storage_defs js_defs thresholds)
qed

text \<open>
  C5. From the default record (the missing row, or the row a reset writes), five
  failures give \<open>currentLevel = 2\<close>, \<open>errorCount = 5\<close>, \<open>recoveryPoints = 0\<close>.
  After \<open>n\<close> failures from the missing row the error count is \<open>n\<close> and the tier is 1
  below five failures, 2 from five to nine, 3 from ten on. From any table, one
  \<open>handleFailure\<close> adds one to the error count, writes \<open>recoveryPoints = 0\<close>, and
  decides the tier from the incremented error count and the tier it found; the
  response reports that tier and that error count.
\<close>

theorem failures_degrade:
  "(length ts = 5 \<longrightarrow>
      run (invocations FAILURE ts) None =
        Some \<lparr>errorCount = Some 5, currentLevel = Some 2, recoveryPoints = Some 0,
               lastUpdated = Some (last ts)\<rparr> \<and>
      run (invocations FAILURE ts)
        (Some \<lparr>errorCount = Some 0, currentLevel = Some 1, recoveryPoints = Some 0,
                lastUpdated = lu\<rparr>) =
        Some \<lparr>errorCount = Some 5, currentLevel = Some 2, recoveryPoints = Some 0,
               lastUpdated = Some (last ts)\<rparr>) \<and>
   errors (run (invocations FAILURE ts) None) = int (length ts) \<and>
   tier (run (invocations FAILURE ts) None) =
     (if 10 \<le> length ts then 3 else if 5 \<le> length ts then 2 else 1) \<and>
   errors (snd (handleFailure now tb)) = errors tb + 1 \<and>
   points (snd (handleFailure now tb)) = 0 \<and>
   tier (snd (handleFailure now tb)) =
     (if DEGRADE_TO_L3 \<le> errors tb + 1 \<and> tier tb < 3 then 3
      else if DEGRADE_TO_L2 \<le> errors tb + 1 \<and> tier tb < 2 then 2 else tier tb) \<and>
   (\<exists>it. snd (handleFailure now tb) = Some it \<and>
      errorCount it = Some (errors tb + 1) \<and> recoveryPoints it = Some 0) \<and>
   res_currentLevel (fst (handleFailure now tb)) = tier (snd (handleFailure now tb)) \<and>
   res_errorCount (fst (handleFailure now tb)) = Some (errors tb + 1)"
proof -
  have stored: "\<exists>it. snd (handleFailure now tb) = Some it \<and>
      errorCount it = Some (errors tb + 1) \<and> recoveryPoints it = Some 0"
    by (auto simp: handleFailure_table Let_def errors_def storage_defs js_defs
        split: option.splits)
  have resp: "res_currentLevel (fst (handleFailure now tb)) = tier (snd (handleFailure now tb))"
    by (auto simp: handleFailure_def tier_def Let_def storage_defs js_defs thresholds
        split: option.splits)
  have resp2: "res_errorCount (fst (handleFailure now tb)) = Some (errors tb + 1)"
    by (auto simp: handleFailure_def errors_def Let_def storage_defs js_defs thresholds
        split: option.splits)
  show ?thesis
    using five_failures(1) [of ts] five_failures(2) [of ts lu] failures_from_absent [of ts] stored resp resp2
    by (simp add: handleFailure_errors handleFailure_points handleFailure_tier)
qed

theorem failures_degrade_witness:
  "run (invocations FAILURE [''a'', ''b'', ''c'', ''d'', ''e'']) None =
     Some \<lparr>errorCount = Some 5, currentLevel = Some 2, recoveryPoints = Some 0,
            lastUpdated = Some ''e''\<rparr>"
  using failures_degrade [of "[''a'', ''b'', ''c'', ''d'', ''e'']" None "''z''" None]
  by simp

section \<open>Reset\<close>

text \<open>
  C6. \<open>handleReset\<close> writes tier 1 and both counters 0 whatever the table held, and
  its response always reports \<open>levelChanged = true\<close>. A reset after a reset returns
  what a single reset at that clock reading returns, response and table alike.
\<close>

theorem reset_idempotent:
  "snd (handleReset now tb) =
     Some \<lparr>errorCount = Some 0, currentLevel = Some 1, recoveryPoints = Some 0,
            lastUpdated = Some now\<rparr> \<and>
   fst (handleReset now tb) =
     \<lparr>res_action = ''RESET'', res_errorCount = Some 0, res_currentLevel = 1,
        res_recoveryPoints = Some 0, res_levelChanged = True,
        res_lastUpdated = Some now,
        res_message = Some ''System reset to Full Capacity''\<rparr> \<and>
   handleReset now' (snd (handleReset now tb)) = handleReset now' tb \<and>
   tier (snd (handleReset now tb)) = 1 \<and>
   errors (snd (handleReset now tb)) = 0 \<and>
   points (snd (handleReset now tb)) = 0"
  by (simp add: handleReset_def storage_defs Let_def tier_def errors_def points_def
      js_or_def split: option.splits)

section \<open>The reader\<close>

text \<open>
  C7, as the code has it. For a stored row the reader returns the row's
  \<open>currentLevel\<close>, \<open>errorCount\<close> and \<open>lastUpdated\<close>, and nothing that depends on
  the row's \<open>recoveryPoints\<close>.
\<close>

theorem get_state_returns:
  "fst (get_state (Some it)) =
     \<lparr>gs_currentLevel = currentLevel it, gs_errorCount = errorCount it,
        gs_lastUpdated = lastUpdated it\<rparr> \<and>
   fst (get_state (Some (it\<lparr>recoveryPoints := rp\<rparr>))) = fst (get_state (Some it))"
  by (simp add: get_state_def send_GetCommand_def)

text \<open>
  C7, as stated, fails: two rows that differ only in their recovery count are read
  as the same object, so the object read does not hold the recovery count.
\<close>

theorem get_state_omits_recoveryPoints:
  "fst (get_state (Some \<lparr>errorCount = Some 3, currentLevel = Some 2,
          recoveryPoints = Some 7, lastUpdated = Some ''t''\<rparr>)) =
   fst (get_state (Some \<lparr>errorCount = Some 3, currentLevel = Some 2,
          recoveryPoints = Some 0, lastUpdated = Some ''t''\<rparr>)) \<and>
   recoveryPoints \<lparr>errorCount = Some 3, currentLevel = Some 2,
          recoveryPoints = Some 7, lastUpdated = Some ''t''\<rparr> \<noteq>
   recoveryPoints \<lparr>errorCount = Some 3, currentLevel = Some 2,
          recoveryPoints = Some 0, lastUpdated = Some ''t''\<rparr>"
  by (simp add: get_state_def send_GetCommand_def)

text \<open>
  C8. With no row stored, the reader returns \<open>currentLevel = 1\<close>, \<open>errorCount = 0\<close>
  and the table still holds no row. Whatever the table holds, a read leaves it as
  it was.
\<close>

theorem get_state_default_no_effect:
  "get_state None =
     (\<lparr>gs_currentLevel = Some 1, gs_errorCount = Some 0, gs_lastUpdated = None\<rparr>, None) \<and>
   snd (get_state tb) = tb"
  by (simp add: get_state_def send_GetCommand_def split: option.splits)

section \<open>Unknown actions\<close>

text \<open>
  C9. The mutator's handler returns an error exactly when the action is none of
  \<open>FAILURE\<close>, \<open>SUCCESS\<close>, \<open>RESET\<close>; the error names the action, and the table is left
  as it was. The storage commands are taken to succeed, so no other error arises.
\<close>

theorem unknown_action_raises:
  "(isl (fst (handler now ev tb)) \<longleftrightarrow>
      action ev \<notin> {Some ''FAILURE'', Some ''SUCCESS'', Some ''RESET''}) \<and>
   (action ev \<notin> {Some ''FAILURE'', Some ''SUCCESS'', Some ''RESET''} \<longrightarrow>
      handler now ev tb =
        (Inl (Error (''Unknown action: '' @
           (case action ev of None \<Rightarrow> ''undefined'' | Some a \<Rightarrow> a))), tb))"
  by (auto simp: handler_def split_beta)

theorem unknown_action_raises_witness:
  "handler ''t'' \<lparr>action = Some ''PAUSE'', hadErrorFlag = None\<rparr>
     (Some \<lparr>errorCount = Some 3, currentLevel = Some 2, recoveryPoints = Some 7,
             lastUpdated = Some ''s''\<rparr>) =
     (Inl (Error ''Unknown action: PAUSE''),
      Some \<lparr>errorCount = Some 3, currentLevel = Some 2, recoveryPoints = Some 7,
             lastUpdated = Some ''s''\<rparr>) \<and>
   \<not> isl (fst (handler ''t'' RESET None))"
  using unknown_action_raises [of "''t''" "\<lparr>action = Some ''PAUSE'', hadErrorFlag = None\<rparr>"
      "Some \<lparr>errorCount = Some 3, currentLevel = Some 2, recoveryPoints = Some 7,
             lastUpdated = Some ''s''\<rparr>"]
    unknown_action_raises [of "''t''" RESET None]
  by (simp add: RESET_def)

section \<open>A row created by a failure\<close>

lemma few_failures_from_absent:
  assumes "ts \<noteq> []" and "length ts < 5"
  shows "run (invocations FAILURE ts) None =
           Some \<lparr>errorCount = Some (int (length ts)), currentLevel = None,
                  recoveryPoints = Some 0, lastUpdated = Some (last ts)\<rparr>"
  using assms
proof (induction ts rule: rev_nonempty_induct)
  case (single t)
  show ?case
    by (simp add: run_invocations_Cons run_invocations_Nil handler_FAILURE
        handleFailure_table Let_def storage_defs js_defs thresholds)
next
  case (snoc t ts)
  then have "run (invocations FAILURE ts) None =
           Some \<lparr>errorCount = Some (int (length ts)), currentLevel = None,
                  recoveryPoints = Some 0, lastUpdated = Some (last ts)\<rparr>"
    by simp
  with snoc.prems show ?case
    by (simp add: run_invocations_snoc handler_FAILURE
        handleFailure_table Let_def storage_defs js_defs thresholds)
qed

lemma last_failure_response:
  assumes "ts \<noteq> []" and "length ts < 5"
  shows "fst (handleFailure (last ts) (run (invocations FAILURE (butlast ts)) None)) =
           \<lparr>res_action = ''FAILURE'', res_errorCount = Some (int (length ts)),
              res_currentLevel = 1, res_recoveryPoints = None,
              res_levelChanged = False, res_lastUpdated = Some (last ts),
              res_message = None\<rparr>"
proof (cases "butlast ts = []")
  case True
  with assms show ?thesis
    by (cases ts)
       (auto simp: run_invocations_Nil handleFailure_def Let_def storage_defs js_defs
          thresholds split: if_splits)
next
  case False
  from assms have short: "length (butlast ts) < 5" by simp
  from assms have len: "int (length (butlast ts)) + 1 = int (length ts)"
    by (cases ts rule: rev_cases) auto
  from assms have "int (length ts) < 5" by simp
  with few_failures_from_absent [OF False short] len show ?thesis
    by (simp add: handleFailure_def Let_def storage_defs js_defs thresholds
        del: length_butlast)
qed

text \<open>
  C10. When the first invocations against a table with no row are failures, fewer
  than \<open>DEGRADE_TO_L2\<close> of them, the row holds \<open>errorCount\<close>, \<open>recoveryPoints\<close> and
  \<open>lastUpdated\<close> and no \<open>currentLevel\<close>. The reader then returns no \<open>currentLevel\<close>.
  The mutator reads the missing level as 1: the failure that wrote the row reports
  level 1 and no change, and a success on that row takes the tier-1 branch
  (it decrements the error count) and writes \<open>currentLevel = 1\<close>.
\<close>

theorem failure_created_row_has_no_level:
  assumes "ts \<noteq> []" and "length ts < 5"
  shows "run (invocations FAILURE ts) None =
           Some \<lparr>errorCount = Some (int (length ts)), currentLevel = None,
                  recoveryPoints = Some 0, lastUpdated = Some (last ts)\<rparr> \<and>
         gs_currentLevel (fst (get_state (run (invocations FAILURE ts) None))) = None \<and>
         fst (handleFailure (last ts) (run (invocations FAILURE (butlast ts)) None)) =
           \<lparr>res_action = ''FAILURE'', res_errorCount = Some (int (length ts)),
              res_currentLevel = 1, res_recoveryPoints = None,
              res_levelChanged = False, res_lastUpdated = Some (last ts),
              res_message = None\<rparr> \<and>
         handleSuccess now ev (run (invocations FAILURE ts) None) =
           (\<lparr>res_action = ''SUCCESS'', res_errorCount = Some (int (length ts) - 1),
               res_currentLevel = 1, res_recoveryPoints = Some 0,
               res_levelChanged = False, res_lastUpdated = Some now,
               res_message = None\<rparr>,
            Some \<lparr>errorCount = Some (int (length ts) - 1), currentLevel = Some 1,
                   recoveryPoints = Some 0, lastUpdated = Some now\<rparr>)"
proof -
  note row = few_failures_from_absent [OF assms]
  have "gs_currentLevel (fst (get_state (run (invocations FAILURE ts) None))) = None"
    unfolding row by (simp add: get_state_def send_GetCommand_def)
  moreover from assms(1) have "handleSuccess now ev (run (invocations FAILURE ts) None) =
           (\<lparr>res_action = ''SUCCESS'', res_errorCount = Some (int (length ts) - 1),
               res_currentLevel = 1, res_recoveryPoints = Some 0,
               res_levelChanged = False, res_lastUpdated = Some now,
               res_message = None\<rparr>,
            Some \<lparr>errorCount = Some (int (length ts) - 1), currentLevel = Some 1,
                   recoveryPoints = Some 0, lastUpdated = Some now\<rparr>)"
    unfolding row
    by (auto simp: handleSuccess_def Let_def storage_defs js_defs)
  ultimately show ?thesis
    using row last_failure_response [OF assms] by simp
qed

theorem failure_created_row_has_no_level_witness:
  "run (invocations FAILURE [''a'', ''b'']) None =
     Some \<lparr>errorCount = Some 2, currentLevel = None, recoveryPoints = Some 0,
            lastUpdated = Some ''b''\<rparr> \<and>
   gs_currentLevel (fst (get_state (run (invocations FAILURE [''a'', ''b'']) None))) = None \<and>
   snd (handleSuccess ''c'' (SUCCESS False) (run (invocations FAILURE [''a'', ''b'']) None)) =
     Some \<lparr>errorCount = Some 1, currentLevel = Some 1, recoveryPoints = Some 0,
            lastUpdated = Some ''c''\<rparr>"
proof -
  have h1: "[''a'', ''b''] \<noteq> []" by simp
  have h2: "length [''a'', ''b''] < 5" by simp
  from failure_created_row_has_no_level [OF h1 h2, of "''c''" "SUCCESS False"]
  show ?thesis by (elim conjE) simp
qed

end
